theory Spec2Isabelle
  imports Complex_Main "HOL-Library.List_Lexorder" "HOL-Library.Char_ord"
begin

section \<open>Data model of squad/core/models.py\<close>

text \<open>
  Django model instances are records of the columns the verified methods read.  A
  foreign key is the primary key of the row it points to (a natural number), a
  nullable column is an option, a \<^verbatim>\<open>DateTimeField\<close> is a point on the integer time
  line.  A related manager (\<^verbatim>\<open>build.test_runs\<close>, \<^verbatim>\<open>run.tests\<close>,
  \<^verbatim>\<open>project.environments\<close>) is the list of rows the database returns for it.
\<close>

datatype error =
  KeyError | ZeroDivisionError | OverflowError | InvalidTestStatus string | YAMLError

text \<open>
  The values \<^verbatim>\<open>json.loads\<close> produces for a metadata file whose entries are scalars
  or lists.  Numbers with a fractional part are left out.
\<close>

datatype json = JNull | JBool bool | JInt int | JStr string | JList "json list"

record Environment =
  environment_id :: nat
  environment_slug :: string
  environment_name :: "string option"
  expected_test_runs :: "int option"

record Test =
  test_id :: nat
  suite :: nat
  name :: string
  result :: "bool option"
  has_known_issues :: "bool option"

text \<open>
  A test run carries its parsed metadata dictionary, its tests as \<^verbatim>\<open>run.tests.all()\<close>
  returns them, and the \<^verbatim>\<open>result\<close> column of its \<^verbatim>\<open>Metric\<close> rows.
\<close>

record TestRun =
  run_id :: nat
  environment :: Environment
  completed :: bool
  metadata :: "(string \<times> json) list"
  tests :: "Test list"
  metric_results :: "real list"

text \<open>\<^verbatim>\<open>squad.ci.models.TestJob\<close>: only its \<^verbatim>\<open>fetched\<close> column is read here.\<close>

record TestJob =
  fetched :: bool

record Build =
  build_id :: nat
  project :: nat
  datetime :: int
  patch_baseline :: "nat option"
  environments :: "Environment list"
  test_runs :: "TestRun list"
  test_jobs :: "TestJob list"

subsection \<open>Test.status\<close>

text \<open>
  \<^verbatim>\<open>if self.result\<close> holds for \<^verbatim>\<open>True\<close> only; \<^verbatim>\<open>None\<close> and \<^verbatim>\<open>False\<close> are falsy,
  and so is a \<^verbatim>\<open>has_known_issues\<close> that is \<^verbatim>\<open>None\<close>.
\<close>

definition status :: "Test \<Rightarrow> string" where
  "status t =
     (if result t = Some True then ''pass''
      else if result t = None then ''skip''
      else if has_known_issues t = Some True then ''xfail''
      else ''fail'')"

subsection \<open>TestSummaryBase\<close>




record TestSummaryBase =
  tests_pass :: int
  tests_fail :: int
  tests_xfail :: int
  tests_skip :: int








subsection \<open>Insertion-ordered dictionaries\<close>

text \<open>
  A Python \<^verbatim>\<open>dict\<close> or \<^verbatim>\<open>OrderedDict\<close> is the list of its items in insertion
  order.  \<^verbatim>\<open>d[k] = v\<close> replaces the value of a key that is present, in place, and
  appends the item otherwise.
\<close>

fun dict_set :: "'k \<Rightarrow> 'v \<Rightarrow> ('k \<times> 'v) list \<Rightarrow> ('k \<times> 'v) list" where
  "dict_set k v [] = [(k, v)]"
| "dict_set k v ((k', v') # d) =
     (if k' = k then (k', v) # d else (k', v') # dict_set k v d)"

subsection \<open>TestSummary\<close>

record TestSummary = TestSummaryBase +
  failures :: "(string \<times> Test list) list"

text \<open>
  The key of the deduplication map is \<^verbatim>\<open>(run.environment, test.suite, test.name)\<close>;
  Django compares and hashes model instances by primary key.  The value is the test,
  kept with the run it came from (\<^verbatim>\<open>test.test_run\<close>).
\<close>

type_synonym test_key = "nat \<times> nat \<times> string"

definition context_key :: "TestRun \<Rightarrow> Test \<Rightarrow> test_key" where
  "context_key run test = (environment_id (environment run), suite test, name test)"

definition order_by_id :: "TestRun list \<Rightarrow> TestRun list" where
  "order_by_id runs = sort_key run_id runs"

definition collect_tests :: "TestRun list \<Rightarrow> (test_key \<times> TestRun \<times> Test) list" where
  "collect_tests runs =
     fold (\<lambda>run d. fold (\<lambda>test. dict_set (context_key run test) (run, test)) (tests run) d)
       runs []"

definition count_status :: "string \<Rightarrow> TestSummary \<Rightarrow> error + TestSummary" where
  "count_status st s =
     (if st = ''pass'' then Inr (s\<lparr>tests_pass := tests_pass s + 1\<rparr>)
      else if st = ''fail'' then Inr (s\<lparr>tests_fail := tests_fail s + 1\<rparr>)
      else if st = ''xfail'' then Inr (s\<lparr>tests_xfail := tests_xfail s + 1\<rparr>)
      else if st = ''skip'' then Inr (s\<lparr>tests_skip := tests_skip s + 1\<rparr>)
      else Inl (InvalidTestStatus st))"

definition add_failure :: "TestRun \<times> Test \<Rightarrow> TestSummary \<Rightarrow> TestSummary" where
  "add_failure rt s =
     (if status (snd rt) = ''fail'' then
        (let env = environment_slug (environment (fst rt)) in
         case map_of (failures s) env of
           None \<Rightarrow> s\<lparr>failures := dict_set env [snd rt] (failures s)\<rparr>
         | Some fs \<Rightarrow> s\<lparr>failures := dict_set env (fs @ [snd rt]) (failures s)\<rparr>)
      else s)"

fun classify :: "(TestRun \<times> Test) list \<Rightarrow> TestSummary \<Rightarrow> error + TestSummary" where
  "classify [] s = Inr s"
| "classify (rt # rest) s =
     (case count_status (status (snd rt)) s of
        Inl e \<Rightarrow> Inl e
      | Inr s' \<Rightarrow> classify rest (add_failure rt s'))"

text \<open>The values of the deduplication map, in its iteration order.\<close>

definition counted_tests :: "Build \<Rightarrow> (TestRun \<times> Test) list" where
  "counted_tests build = map snd (collect_tests (order_by_id (test_runs build)))"

definition TestSummary_init :: "Build \<Rightarrow> error + TestSummary" where
  "TestSummary_init build =
     classify (counted_tests build)
       \<lparr>tests_pass = 0, tests_fail = 0, tests_xfail = 0, tests_skip = 0, failures = []\<rparr>"



definition count_of :: "string \<Rightarrow> (TestRun \<times> Test) list \<Rightarrow> int" where
  "count_of st xs = int (length (filter (\<lambda>rt. status (snd rt) = st) xs))"

subsection \<open>Build.finished\<close>

text \<open>Python's \<^verbatim>\<open>'%d' % n\<close> and \<^verbatim>\<open>Environment.__str__\<close> (\<^verbatim>\<open>self.name or self.slug\<close>).\<close>

function digits :: "nat \<Rightarrow> string" where
  "digits n =
     (if n < 10 then [''0123456789'' ! n]
      else digits (n div 10) @ [''0123456789'' ! (n mod 10)])"
  by pat_completeness auto
termination
  by (relation "measure (\<lambda>n. n)") auto

definition format_d :: "int \<Rightarrow> string" where
  "format_d i = (if i < 0 then ''-'' @ digits (nat (- i)) else digits (nat i))"

definition environment_str :: "Environment \<Rightarrow> string" where
  "environment_str e =
     (case environment_name e of
        None \<Rightarrow> environment_slug e
      | Some n \<Rightarrow> if n = [] then environment_slug e else n)"

text \<open>
  The values of the \<^verbatim>\<open>testruns\<close> dictionary: the entries \<^verbatim>\<open>'name'\<close>,
  \<^verbatim>\<open>'expected'\<close> and \<^verbatim>\<open>'received'\<close> kept for one environment.
\<close>

record testruns_entry =
  entry_name :: string
  entry_expected :: "int option"
  entry_received :: int

definition initial_testruns :: "Environment list \<Rightarrow> (nat \<times> testruns_entry) list" where
  "initial_testruns envs =
     fold (\<lambda>e. dict_set (environment_id e)
             \<lparr>entry_name = environment_str e, entry_expected = expected_test_runs e,
              entry_received = 0\<rparr>)
       envs []"

text \<open>
  \<^verbatim>\<open>testruns[t.environment_id]['received'] += 1\<close> for every completed run; the lookup
  raises \<^verbatim>\<open>KeyError\<close> for an environment that is not among the project's.
\<close>

fun count_received ::
  "TestRun list \<Rightarrow> (nat \<times> testruns_entry) list \<Rightarrow> error + (nat \<times> testruns_entry) list" where
  "count_received [] d = Inr d"
| "count_received (t # ts) d =
     (case map_of d (environment_id (environment t)) of
        None \<Rightarrow> Inl KeyError
      | Some c \<Rightarrow>
          count_received ts
            (dict_set (environment_id (environment t))
               (c\<lparr>entry_received := entry_received c + 1\<rparr>) d))"

text \<open>
  The body of the loop over \<^verbatim>\<open>testruns.items()\<close>.  \<^verbatim>\<open>expected == 0\<close> skips the
  environment; \<^verbatim>\<open>if expected and ...\<close> holds for an expected number that is neither
  \<^verbatim>\<open>None\<close> nor 0.
\<close>

definition environment_reasons :: "testruns_entry \<Rightarrow> string list" where
  "environment_reasons c =
     (if entry_expected c = Some 0 then []
      else
        (if entry_received c = 0
         then [''No test runs for '' @ entry_name c @ '' received so far'']
         else []) @
        (case entry_expected c of
           None \<Rightarrow> []
         | Some expected \<Rightarrow>
             if expected \<noteq> 0 \<and> entry_received c < expected
             then [format_d expected @ '' test runs expected for '' @ entry_name c @
                   '', but only '' @ format_d (entry_received c) @ '' received so far'']
             else []))"

definition job_reasons :: "TestJob list \<Rightarrow> string list" where
  "job_reasons testjobs =
     (if length testjobs > 0 then
        (if length (filter (\<lambda>j. fetched j = False) testjobs) > 0
         then [''There are unfinished CI jobs'']
         else [])
      else [])"

definition finished :: "Build \<Rightarrow> error + (bool \<times> string list)" where
  "finished build =
     (case count_received (filter (\<lambda>t. completed t = True) (test_runs build))
             (initial_testruns (environments build)) of
        Inl e \<Rightarrow> Inl e
      | Inr testruns \<Rightarrow>
          (let reasons = job_reasons (test_jobs build) @
                         concat (map (\<lambda>(env, count). environment_reasons count) testruns)
           in Inr (length reasons = 0, reasons)))"

text \<open>
  The condition on a finished build: as the code decides it
  (\<open>environment_satisfied\<close>) and as C1 states it (\<open>claimed_environment_satisfied\<close>).  The
  number of runs received for an environment is the number of completed runs of the
  build in that environment.
\<close>

definition received :: "Build \<Rightarrow> Environment \<Rightarrow> int" where
  "received build e =
     int (length (filter (\<lambda>t. completed t \<and>
            environment_id (environment t) = environment_id e) (test_runs build)))"

definition pending_jobs :: "Build \<Rightarrow> bool" where
  "pending_jobs build = list_ex (\<lambda>j. \<not> fetched j) (test_jobs build)"

definition environment_satisfied :: "Build \<Rightarrow> Environment \<Rightarrow> bool" where
  "environment_satisfied build e =
     (case expected_test_runs e of
        None \<Rightarrow> received build e \<ge> 1
      | Some n \<Rightarrow>
          if n = 0 then True
          else if n > 0 then received build e \<ge> n
          else received build e \<ge> 1)"

definition claimed_environment_satisfied :: "Build \<Rightarrow> Environment \<Rightarrow> bool" where
  "claimed_environment_satisfied build e =
     (case expected_test_runs e of
        None \<Rightarrow> received build e \<ge> 1
      | Some n \<Rightarrow>
          if n = 0 then True
          else if n > 0 then received build e \<ge> n
          else True)"

definition well_formed :: "Build \<Rightarrow> bool" where
  "well_formed build =
     (distinct (map environment_id (environments build)) \<and>
      list_all (\<lambda>t. completed t \<longrightarrow>
          environment_id (environment t) \<in> set (map environment_id (environments build)))
        (test_runs build))"

text \<open>
  The \<^verbatim>\<open>testruns\<close> dictionary in which environment \<open>i\<close> has received \<open>c i\<close> runs.
\<close>

definition entry_of :: "(nat \<Rightarrow> int) \<Rightarrow> Environment \<Rightarrow> testruns_entry" where
  "entry_of c e =
     \<lparr>entry_name = environment_str e, entry_expected = expected_test_runs e,
      entry_received = c (environment_id e)\<rparr>"

definition testruns_table :: "(nat \<Rightarrow> int) \<Rightarrow> Environment list \<Rightarrow> (nat \<times> testruns_entry) list" where
  "testruns_table c envs = map (\<lambda>e. (environment_id e, entry_of c e)) envs"

subsection \<open>ProjectStatus\<close>

text \<open>
  One row per build (\<^verbatim>\<open>OneToOneField\<close>): the table of statuses is a map from the
  build's id.  The float \<^verbatim>\<open>metrics_summary\<close> is a real.
\<close>

record ProjectStatus = TestSummaryBase +
  created_at :: int
  last_updated :: "int option"
  status_finished :: bool
  notified :: bool
  notified_on_timeout :: bool
  approved :: bool
  metrics_summary :: real
  has_metrics :: bool
  test_runs_total :: int
  test_runs_completed :: int
  test_runs_incomplete :: int
  status_regressions :: "string option"
  status_fixes :: "string option"

type_synonym status_table = "nat \<rightharpoonup> ProjectStatus"

text \<open>
  What \<^verbatim>\<open>create_or_update\<close> takes from outside this module: the clock, the modules
  \<^verbatim>\<open>squad.core.statistics\<close> (\<^verbatim>\<open>geomean\<close>) and \<^verbatim>\<open>squad.core.comparison\<close>
  (\<^verbatim>\<open>TestComparison\<close>, of which the \<^verbatim>\<open>regressions\<close> and \<^verbatim>\<open>fixes\<close> mappings are read),
  and \<^verbatim>\<open>yaml.dump\<close>.  A comparison mapping is the list of its items; it is truthy when
  it is not empty.
\<close>

type_synonym comparison_doc = "(string \<times> (string \<times> string list) list) list"

record externals =
  now :: int
  geomean :: "real list \<Rightarrow> real"
  test_comparison :: "Build \<Rightarrow> Build \<Rightarrow> comparison_doc \<times> comparison_doc"
  yaml_dump :: "comparison_doc \<Rightarrow> string"



subsection \<open>The previous build\<close>

text \<open>
  \<^verbatim>\<open>Build.objects.filter(status__finished=True, datetime__lt=build.datetime,
  project=build.project).order_by('build__datetime').last()\<close>.  On the model \<^verbatim>\<open>Build\<close>
  the lookup \<^verbatim>\<open>build\<close> is the reverse side of the foreign key \<^verbatim>\<open>patch_baseline\<close>
  (a \<^verbatim>\<open>Build\<close> pointing to a \<^verbatim>\<open>Build\<close>, with no \<^verbatim>\<open>related_name\<close>), so the ordering
  key of a row is the \<^verbatim>\<open>datetime\<close> of a build that has the row's build as its patch
  baseline: the query joins every filtered build with the builds based on it (left
  outer join: one row with a NULL key when there is none).  \<^verbatim>\<open>last()\<close> returns a row
  with the greatest key.  Where NULL stands in the order depends on the database
  (\<open>nulls_high\<close>: PostgreSQL; otherwise SQLite and MySQL), and the choice among rows
  with equal keys is open, so the query is modelled by the list of builds it may return.
\<close>

definition qualifying :: "status_table \<Rightarrow> Build \<Rightarrow> Build \<Rightarrow> bool" where
  "qualifying statuses build c =
     ((case statuses (build_id c) of None \<Rightarrow> False | Some st \<Rightarrow> status_finished st)
      \<and> datetime c < datetime build \<and> project c = project build)"

definition ordering_rows :: "Build list \<Rightarrow> Build \<Rightarrow> (Build \<times> int option) list" where
  "ordering_rows builds c =
     (case map datetime (filter (\<lambda>p. patch_baseline p = Some (build_id c)) builds) of
        [] \<Rightarrow> [(c, None)]
      | ds \<Rightarrow> map (\<lambda>d. (c, Some d)) ds)"

definition key_le :: "bool \<Rightarrow> int option \<Rightarrow> int option \<Rightarrow> bool" where
  "key_le nulls_high k k' =
     (case (k, k') of
        (None, None) \<Rightarrow> True
      | (None, Some d') \<Rightarrow> \<not> nulls_high
      | (Some d, None) \<Rightarrow> nulls_high
      | (Some d, Some d') \<Rightarrow> d \<le> d')"

definition previous_build_rows :: "Build list \<Rightarrow> status_table \<Rightarrow> Build \<Rightarrow> (Build \<times> int option) list" where
  "previous_build_rows builds statuses build =
     concat (map (ordering_rows builds) (filter (qualifying statuses build) builds))"

definition previous_build :: "bool \<Rightarrow> Build list \<Rightarrow> status_table \<Rightarrow> Build \<Rightarrow> Build list" where
  "previous_build nulls_high builds statuses build =
     (let rows = previous_build_rows builds statuses build
      in map fst (filter (\<lambda>(c, k). list_all (\<lambda>(c', k'). key_le nulls_high k' k) rows) rows))"

text \<open>
  \<^verbatim>\<open>ProjectStatus.get_previous\<close> runs the same query on \<^verbatim>\<open>ProjectStatus\<close>, where
  \<^verbatim>\<open>build__datetime\<close> is the \<^verbatim>\<open>datetime\<close> of the status's own build.  The statuses it
  may return are given by their builds.
\<close>

definition get_previous :: "Build list \<Rightarrow> status_table \<Rightarrow> Build \<Rightarrow> Build list" where
  "get_previous builds statuses build =
     (let rows = filter (qualifying statuses build) builds
      in filter (\<lambda>c. list_all (\<lambda>c'. datetime c' \<le> datetime c) rows) rows)"

text \<open>
  The baseline C3 names: a build of the same project with a finished status and the
  latest \<^verbatim>\<open>datetime\<close> among those strictly before the build's.
\<close>

definition latest_finished_before :: "Build list \<Rightarrow> status_table \<Rightarrow> Build \<Rightarrow> Build \<Rightarrow> bool" where
  "latest_finished_before builds statuses build c =
     (c \<in> set builds \<and> qualifying statuses build c \<and>
      list_all (\<lambda>c'. datetime c' \<le> datetime c) (filter (qualifying statuses build) builds))"

subsection \<open>ProjectStatus.create_or_update\<close>




subsection \<open>Test.history\<close>

text \<open>
  The table of tests is read off the builds: every test with its run and its build.
  The query keeps the tests of the same suite, name and environment in builds strictly
  earlier than the test's own, leaves the test itself out, and orders them by
  descending build \<^verbatim>\<open>datetime\<close> (a stable sort of the table: the database may order
  rows of equal \<^verbatim>\<open>datetime\<close> in any way).  The per-instance cache \<^verbatim>\<open>__history__\<close> is
  not modelled.
\<close>

record History =
  since :: "Test option"
  count :: int
  last_different :: "Test option"

type_synonym test_row = "Build \<times> TestRun \<times> Test"

definition all_tests :: "Build list \<Rightarrow> test_row list" where
  "all_tests builds =
     concat (map (\<lambda>b. concat (map (\<lambda>r. map (\<lambda>t. (b, r, t)) (tests r)) (test_runs b))) builds)"

definition is_previous_test :: "test_row \<Rightarrow> test_row \<Rightarrow> bool" where
  "is_previous_test self row =
     (case (self, row) of
        ((b0, r0, t0), (b, r, t)) \<Rightarrow>
          suite t = suite t0 \<and> name t = name t0 \<and> datetime b < datetime b0 \<and>
          environment_id (environment r) = environment_id (environment r0) \<and>
          test_id t \<noteq> test_id t0)"

definition previous_tests :: "Build list \<Rightarrow> test_row \<Rightarrow> test_row list" where
  "previous_tests builds self =
     sort_key (\<lambda>row. - datetime (fst row)) (filter (is_previous_test self) (all_tests builds))"

fun history_loop :: "bool option \<Rightarrow> Test list \<Rightarrow> History \<Rightarrow> History" where
  "history_loop res [] h = h"
| "history_loop res (test # rest) h =
     (if result test = res
      then history_loop res rest (h\<lparr>since := Some test, count := count h + 1\<rparr>)
      else h\<lparr>last_different := Some test\<rparr>)"

definition history :: "Build list \<Rightarrow> test_row \<Rightarrow> History" where
  "history builds self =
     history_loop (result (snd (snd self))) (map (\<lambda>row. snd (snd row)) (previous_tests builds self))
       \<lparr>since = None, count = 0, last_different = None\<rparr>"

subsection \<open>Build.metadata\<close>

text \<open>
  Python's \<^verbatim>\<open>==\<close> on metadata values: \<^verbatim>\<open>True == 1\<close> and \<^verbatim>\<open>False == 0\<close> hold, lists
  are compared element by element, and values of different kinds are different
  otherwise.  \<^verbatim>\<open>value in values\<close> compares the value with every item.
\<close>

fun py_eq :: "json \<Rightarrow> json \<Rightarrow> bool" and py_eq_list :: "json list \<Rightarrow> json list \<Rightarrow> bool" where
  "py_eq JNull JNull = True"
| "py_eq (JBool a) (JBool b) = (a = b)"
| "py_eq (JBool a) (JInt j) = ((if a then 1 else 0) = j)"
| "py_eq (JInt i) (JBool b) = (i = (if b then 1 else 0))"
| "py_eq (JInt i) (JInt j) = (i = j)"
| "py_eq (JStr s) (JStr t) = (s = t)"
| "py_eq (JList xs) (JList ys) = py_eq_list xs ys"
| "py_eq _ _ = False"
| "py_eq_list [] [] = True"
| "py_eq_list (x # xs) (y # ys) = (py_eq x y \<and> py_eq_list xs ys)"
| "py_eq_list _ _ = False"

definition py_in :: "json \<Rightarrow> json list \<Rightarrow> bool" where
  "py_in v vs = list_ex (\<lambda>item. py_eq item v) vs"

text \<open>
  The body of the inner loop: \<^verbatim>\<open>metadata.setdefault(key, [])\<close>, then the value is
  appended to \<^verbatim>\<open>metadata[key]\<close> unless it is in it already.  After \<^verbatim>\<open>setdefault\<close> the
  key is present.
\<close>

definition setdefault :: "'k \<Rightarrow> 'v \<Rightarrow> ('k \<times> 'v) list \<Rightarrow> ('k \<times> 'v) list" where
  "setdefault k v d = (case map_of d k of None \<Rightarrow> dict_set k v d | Some _ \<Rightarrow> d)"

definition add_value :: "string \<Rightarrow> json \<Rightarrow> (string \<times> json list) list \<Rightarrow> (string \<times> json list) list" where
  "add_value key v md =
     (let md1 = setdefault key [] md;
          vs = (case map_of md1 key of None \<Rightarrow> [] | Some vs \<Rightarrow> vs)
      in if \<not> py_in v vs then dict_set key (vs @ [v]) md1 else md1)"

definition collect_metadata :: "(string \<times> json) list list \<Rightarrow> (string \<times> json list) list" where
  "collect_metadata maps = fold (\<lambda>m md. fold (\<lambda>(key, v). add_value key v) m md) maps []"

text \<open>
  The second loop.  \<^verbatim>\<open>sorted(values, key=str)\<close> is a stable sort by the string
  representation, compared as Python compares strings; \<^verbatim>\<open>str\<close> itself is a parameter.
\<close>

definition merge_values :: "(json \<Rightarrow> string) \<Rightarrow> json list \<Rightarrow> json" where
  "merge_values str vs = (if length vs = 1 then vs ! 0 else JList (sort_key str vs))"

definition merge_metadata :: "(json \<Rightarrow> string) \<Rightarrow> (string \<times> json) list list \<Rightarrow> (string \<times> json) list" where
  "merge_metadata str maps = map (\<lambda>(key, vs). (key, merge_values str vs)) (collect_metadata maps)"

definition Build_metadata :: "(json \<Rightarrow> string) \<Rightarrow> Build \<Rightarrow> (string \<times> json) list" where
  "Build_metadata str build = merge_metadata str (map metadata (test_runs build))"

text \<open>
  The values the runs give for a key, in the order of the runs, and the distinct ones
  among them: a value is kept unless an equal one was kept before.
\<close>

definition values_of :: "string \<Rightarrow> (string \<times> json) list list \<Rightarrow> json list" where
  "values_of key maps = map snd (filter (\<lambda>item. fst item = key) (concat maps))"

definition add_distinct :: "json \<Rightarrow> json list \<Rightarrow> json list" where
  "add_distinct v acc = (if py_in v acc then acc else acc @ [v])"

definition distinct_values :: "json list \<Rightarrow> json list" where
  "distinct_values vs = fold add_distinct vs []"

text \<open>
  The merge as C5 states it: a list-valued input stands for its elements, which are
  deduplicated one by one.
\<close>

definition expand :: "json \<Rightarrow> json list" where
  "expand v = (case v of JList xs \<Rightarrow> xs | _ \<Rightarrow> [v])"

definition claimed_metadata :: "(json \<Rightarrow> string) \<Rightarrow> Build \<Rightarrow> string \<Rightarrow> json option" where
  "claimed_metadata str build key =
     (case distinct_values (concat (map expand (values_of key (map metadata (test_runs build))))) of
        [] \<Rightarrow> None
      | [v] \<Rightarrow> Some v
      | vs \<Rightarrow> Some (JList (sort_key str vs)))"

text \<open>The inner loop over the items of one metadata dictionary.\<close>

definition add_items :: "(string \<times> json) list \<Rightarrow> (string \<times> json list) list \<Rightarrow> (string \<times> json list) list" where
  "add_items items md = fold (\<lambda>(key, v). add_value key v) items md"

subsection \<open>Reading the comparison fields\<close>

text \<open>
  \<^verbatim>\<open>__get_yaml_field__\<close>, \<^verbatim>\<open>get_regressions\<close> and \<^verbatim>\<open>get_fixes\<close>.  \<^verbatim>\<open>yaml.load\<close> is a
  parameter: it returns a document or raises; \<open>empty_dict\<close> stands for the empty
  dictionary \<^verbatim>\<open>{}\<close>.
\<close>

definition get_yaml_field :: "(string \<Rightarrow> error + 'doc) \<Rightarrow> 'doc \<Rightarrow> string option \<Rightarrow> error + 'doc" where
  "get_yaml_field yaml_load empty_dict field_value =
     (case field_value of Some text \<Rightarrow> yaml_load text | None \<Rightarrow> Inr empty_dict)"

definition get_regressions :: "(string \<Rightarrow> error + 'doc) \<Rightarrow> 'doc \<Rightarrow> ProjectStatus \<Rightarrow> error + 'doc" where
  "get_regressions yaml_load empty_dict st = get_yaml_field yaml_load empty_dict (status_regressions st)"

definition get_fixes :: "(string \<Rightarrow> error + 'doc) \<Rightarrow> 'doc \<Rightarrow> ProjectStatus \<Rightarrow> error + 'doc" where
  "get_fixes yaml_load empty_dict st = get_yaml_field yaml_load empty_dict (status_fixes st)"

text \<open>
  Reading back as C8 states it: a stored text that does not parse counts as no
  comparison data.
\<close>

definition claimed_read :: "(string \<Rightarrow> error + 'doc) \<Rightarrow> 'doc \<Rightarrow> string option \<Rightarrow> error + 'doc" where
  "claimed_read yaml_load empty_dict field_value =
     (case field_value of
        None \<Rightarrow> Inr empty_dict
      | Some text \<Rightarrow> (case yaml_load text of Inl e \<Rightarrow> Inr empty_dict | Inr d \<Rightarrow> Inr d))"

section \<open>Example data\<close>

text \<open>
  A build with one environment and two test runs that both report the test
  \<^verbatim>\<open>x\<close> of suite 1: run 1 passed it, run 2 failed it.
\<close>

definition env_a :: Environment where
  "env_a = \<lparr>environment_id = 1, environment_slug = ''a'', environment_name = None,
     expected_test_runs = None\<rparr>"

definition test_x_pass :: Test where
  "test_x_pass = \<lparr>test_id = 1, suite = 1, name = ''x'', result = Some True,
     has_known_issues = None\<rparr>"

definition test_x_fail :: Test where
  "test_x_fail = \<lparr>test_id = 2, suite = 1, name = ''x'', result = Some False,
     has_known_issues = None\<rparr>"

definition run_1 :: TestRun where
  "run_1 = \<lparr>run_id = 1, environment = env_a, completed = True, metadata = [],
     tests = [test_x_pass],
     metric_results = []\<rparr>"

definition run_2 :: TestRun where
  "run_2 = \<lparr>run_id = 2, environment = env_a, completed = True, metadata = [],
     tests = [test_x_fail],
     metric_results = []\<rparr>"

definition build_dup :: Build where
  "build_dup = \<lparr>build_id = 1, project = 1, datetime = 5, patch_baseline = None,
     environments = [env_a], test_runs = [run_2, run_1], test_jobs = []\<rparr>"

text \<open>
  A build of a project whose only environment expects \<open>-1\<close> test runs, with no
  test run and no CI job.
\<close>

definition env_negative :: Environment where
  "env_negative = \<lparr>environment_id = 3, environment_slug = ''n'', environment_name = None,
     expected_test_runs = Some (- 1)\<rparr>"

definition build_negative :: Build where
  "build_negative = \<lparr>build_id = 2, project = 1, datetime = 6, patch_baseline = None,
     environments = [env_negative], test_runs = [], test_jobs = []\<rparr>"

text \<open>
  The scenario of the specification: two environments, one with no expected number
  and one expecting 2 runs, each with one completed run.
\<close>

definition env_two :: Environment where
  "env_two = \<lparr>environment_id = 2, environment_slug = ''b'', environment_name = Some ''Bee'',
     expected_test_runs = Some 2\<rparr>"

definition run_3 :: TestRun where
  "run_3 = \<lparr>run_id = 3, environment = env_two, completed = True, metadata = [], tests = [],
     metric_results = []\<rparr>"

definition build_two_envs :: Build where
  "build_two_envs = \<lparr>build_id = 3, project = 1, datetime = 7, patch_baseline = None,
     environments = [env_a, env_two], test_runs = [run_1, run_3], test_jobs = []\<rparr>"

text \<open>A build whose completed run belongs to an environment of another project.\<close>

definition build_foreign :: Build where
  "build_foreign = \<lparr>build_id = 4, project = 1, datetime = 8, patch_baseline = None,
     environments = [env_a], test_runs = [run_3], test_jobs = []\<rparr>"

text \<open>
  Collaborators that find no metrics and no differences, and two stored statuses for
  the build \<^const>\<open>build_dup\<close>: one that counted five tests and one that counted none.
\<close>

definition ext_example :: externals where
  "ext_example = \<lparr>now = 100, geomean = (\<lambda>values. 0),
     test_comparison = (\<lambda>baseline target. ([], [])), yaml_dump = (\<lambda>d. [])\<rparr>"

definition status_five :: ProjectStatus where
  "status_five = \<lparr>tests_pass = 5, tests_fail = 0, tests_xfail = 0, tests_skip = 0,
     created_at = 50, last_updated = Some 50, status_finished = False, notified = True,
     notified_on_timeout = False, approved = False, metrics_summary = 0,
     has_metrics = False, test_runs_total = 3, test_runs_completed = 3,
     test_runs_incomplete = 0, status_regressions = None, status_fixes = None\<rparr>"

definition status_zero :: ProjectStatus where
  "status_zero = status_five\<lparr>tests_pass := 0\<rparr>"

text \<open>
  Three builds of project 1 at times 1, 2 and 3, the first two with a finished
  status, and two patch builds: one at time 20 based on the first build, one at time
  10 based on the second.
\<close>

definition plain_build :: "nat \<Rightarrow> int \<Rightarrow> nat option \<Rightarrow> Build" where
  "plain_build i d baseline = \<lparr>build_id = i, project = 1, datetime = d,
     patch_baseline = baseline, environments = [], test_runs = [], test_jobs = []\<rparr>"

definition builds_example :: "Build list" where
  "builds_example = [plain_build 11 1 None, plain_build 12 2 None, plain_build 13 3 None,
     plain_build 14 20 (Some 11), plain_build 15 10 (Some 12)]"

definition statuses_example :: status_table where
  "statuses_example =
     [11 \<mapsto> status_five\<lparr>status_finished := True\<rparr>,
      12 \<mapsto> status_five\<lparr>status_finished := True\<rparr>]"

text \<open>
  Builds that ran the test \<^verbatim>\<open>x\<close> of suite 1 in environment \<^verbatim>\<open>a\<close>: it passed at times
  6, 8, 9 and 10 and failed at time 7.  The build at time 9 also ran a failing test of
  another name, one of another suite, and the test itself in another environment;
  another build at time 10 and a build at time 12 ran the test and failed it.
\<close>

definition test_at :: "nat \<Rightarrow> bool option \<Rightarrow> Test" where
  "test_at i r = \<lparr>test_id = i, suite = 1, name = ''x'', result = r, has_known_issues = None\<rparr>"

definition run_at :: "nat \<Rightarrow> bool option \<Rightarrow> TestRun" where
  "run_at i r = \<lparr>run_id = i, environment = env_a, completed = True, metadata = [],
     tests = [test_at i r], metric_results = []\<rparr>"

definition build_at :: "nat \<Rightarrow> bool option \<Rightarrow> Build" where
  "build_at i r = \<lparr>build_id = i, project = 1, datetime = int i, patch_baseline = None,
     environments = [env_a], test_runs = [run_at i r], test_jobs = []\<rparr>"

definition row_at :: "nat \<Rightarrow> bool option \<Rightarrow> test_row" where
  "row_at i r = (build_at i r, run_at i r, test_at i r)"

definition run_noisy :: TestRun where
  "run_noisy = (run_at 9 (Some True))
     \<lparr>tests := [test_at 9 (Some True),
                (test_at 101 (Some False))\<lparr>name := ''y''\<rparr>,
                (test_at 102 (Some False))\<lparr>suite := 2\<rparr>]\<rparr>"

definition run_other_environment :: TestRun where
  "run_other_environment =
     (run_at 103 (Some False))\<lparr>environment := env_two\<rparr>"

definition build_noisy :: Build where
  "build_noisy = (build_at 9 (Some True))
     \<lparr>environments := [env_a, env_two], test_runs := [run_noisy, run_other_environment]\<rparr>"

definition build_same_time :: Build where
  "build_same_time = (build_at 104 (Some False))\<lparr>datetime := 10\<rparr>"

definition builds_history :: "Build list" where
  "builds_history = [build_at 6 (Some True), build_at 7 (Some False), build_at 8 (Some True),
     build_noisy, build_at 10 (Some True), build_same_time, build_at 12 (Some False)]"

text \<open>
  Python's \<^verbatim>\<open>str\<close> on values whose strings hold no quote, backslash or unprintable
  character, and a build with two runs: the first gives the list \<^verbatim>\<open>["a", "b"]\<close> for the
  key \<^verbatim>\<open>k\<close> and the second the string \<^verbatim>\<open>"a"\<close>; both give \<^verbatim>\<open>1\<close> for the key \<^verbatim>\<open>n\<close>.
\<close>

fun join :: "string \<Rightarrow> string list \<Rightarrow> string" where
  "join sep [] = []"
| "join sep [s] = s"
| "join sep (s # t # ss) = s @ sep @ join sep (t # ss)"

primrec repr_plain :: "json \<Rightarrow> string" where
  "repr_plain JNull = ''None''"
| "repr_plain (JBool b) = (if b then ''True'' else ''False'')"
| "repr_plain (JInt i) = format_d i"
| "repr_plain (JStr s) = [CHR 0x27] @ s @ [CHR 0x27]"
| "repr_plain (JList xs) = ''['' @ join '', '' (map repr_plain xs) @ '']''"

definition str_plain :: "json \<Rightarrow> string" where
  "str_plain v = (case v of JStr s \<Rightarrow> s | _ \<Rightarrow> repr_plain v)"

definition run_meta :: "nat \<Rightarrow> (string \<times> json) list \<Rightarrow> TestRun" where
  "run_meta i m = \<lparr>run_id = i, environment = env_a, completed = True, metadata = m,
     tests = [], metric_results = []\<rparr>"

definition build_meta :: Build where
  "build_meta = \<lparr>build_id = 5, project = 1, datetime = 9, patch_baseline = None,
     environments = [env_a],
     test_runs = [run_meta 1 [(''k'', JList [JStr ''a'', JStr ''b'']), (''n'', JInt 1)],
                  run_meta 2 [(''k'', JStr ''a''), (''n'', JInt 1)]],
     test_jobs = []\<rparr>"

text \<open>
  A loader that rejects the text \<^verbatim>\<open>{\<close> (an unclosed flow mapping, on which
  \<^verbatim>\<open>yaml.load\<close> raises a parser error) and reads every other text as the empty mapping.
\<close>

definition yaml_load_example :: "string \<Rightarrow> error + comparison_doc" where
  "yaml_load_example text = (if text = ''{'' then Inl YAMLError else Inr [])"


section \<open>Properties\<close>

subsection \<open>Dictionaries and the summary loop\<close>

lemma map_of_dict_set: "map_of (dict_set k v d) = (map_of d)(k \<mapsto> v)"
  by (induction d) (auto simp: fun_eq_iff)

lemma keys_dict_set: "fst ` set (dict_set k v d) = insert k (fst ` set d)"
  by (induction d) (force split: if_splits)+

lemma distinct_dict_set: "distinct (map fst d) \<Longrightarrow> distinct (map fst (dict_set k v d))"
  by (induction d) (auto simp: keys_dict_set)












lemma status_cases:
  "status t = ''pass'' \<or> status t = ''fail'' \<or> status t = ''xfail'' \<or> status t = ''skip''"
proof -
  consider "result t = Some True" | "result t = None"
    | "result t = Some False" "has_known_issues t = Some True"
    | "result t = Some False" "has_known_issues t \<noteq> Some True"
    by (cases "result t") auto
  then show ?thesis
  proof cases
    case 1
    then have "status t = ''pass''" by (simp add: status_def)
    then show ?thesis by blast
  next
    case 2
    then have "status t = ''skip''" by (simp add: status_def)
    then show ?thesis by blast
  next
    case 3
    then have "status t = ''xfail''" by (simp add: status_def)
    then show ?thesis by blast
  next
    case 4
    then have "status t = ''fail''" by (simp add: status_def)
    then show ?thesis by blast
  qed
qed




lemma count_status_simps:
  "count_status ''pass'' s = Inr (s\<lparr>tests_pass := tests_pass s + 1\<rparr>)"
  "count_status ''fail'' s = Inr (s\<lparr>tests_fail := tests_fail s + 1\<rparr>)"
  "count_status ''xfail'' s = Inr (s\<lparr>tests_xfail := tests_xfail s + 1\<rparr>)"
  "count_status ''skip'' s = Inr (s\<lparr>tests_skip := tests_skip s + 1\<rparr>)"
  by (simp_all add: count_status_def)

lemma add_failure_counts:
  "tests_pass (add_failure rt s) = tests_pass s"
  "tests_fail (add_failure rt s) = tests_fail s"
  "tests_xfail (add_failure rt s) = tests_xfail s"
  "tests_skip (add_failure rt s) = tests_skip s"
  by (simp_all add: add_failure_def Let_def split: option.splits)

lemma count_of_Nil: "count_of st [] = 0"
  by (simp add: count_of_def)

lemma count_of_Cons: "count_of st (rt # xs) = count_of st [rt] + count_of st xs"
  by (simp add: count_of_def)

lemma classify_step:
  "\<exists>s1. count_status (status (snd rt)) s = Inr s1
     \<and> tests_pass s1 = tests_pass s + count_of ''pass'' [rt]
     \<and> tests_fail s1 = tests_fail s + count_of ''fail'' [rt]
     \<and> tests_xfail s1 = tests_xfail s + count_of ''xfail'' [rt]
     \<and> tests_skip s1 = tests_skip s + count_of ''skip'' [rt]"
  using status_cases[of "snd rt"]
proof (elim disjE)
  assume "status (snd rt) = ''pass''"
  then show ?thesis by (simp add: count_status_simps count_of_def)
next
  assume "status (snd rt) = ''fail''"
  then show ?thesis by (simp add: count_status_simps count_of_def)
next
  assume "status (snd rt) = ''xfail''"
  then show ?thesis by (simp add: count_status_simps count_of_def)
next
  assume "status (snd rt) = ''skip''"
  then show ?thesis by (simp add: count_status_simps count_of_def)
qed

lemma classify_counts:
  "\<exists>s'. classify xs s = Inr s'
     \<and> tests_pass s' = tests_pass s + count_of ''pass'' xs
     \<and> tests_fail s' = tests_fail s + count_of ''fail'' xs
     \<and> tests_xfail s' = tests_xfail s + count_of ''xfail'' xs
     \<and> tests_skip s' = tests_skip s + count_of ''skip'' xs"
proof (induction xs arbitrary: s)
  case Nil
  show ?case by (simp add: count_of_Nil)
next
  case (Cons rt xs)
  from classify_step[of rt s] obtain s1 where
    s1: "count_status (status (snd rt)) s = Inr s1"
      "tests_pass s1 = tests_pass s + count_of ''pass'' [rt]"
      "tests_fail s1 = tests_fail s + count_of ''fail'' [rt]"
      "tests_xfail s1 = tests_xfail s + count_of ''xfail'' [rt]"
      "tests_skip s1 = tests_skip s + count_of ''skip'' [rt]"
    by blast
  from Cons.IH[of "add_failure rt s1"] obtain s' where
    s': "classify xs (add_failure rt s1) = Inr s'"
      "tests_pass s' = tests_pass s1 + count_of ''pass'' xs"
      "tests_fail s' = tests_fail s1 + count_of ''fail'' xs"
      "tests_xfail s' = tests_xfail s1 + count_of ''xfail'' xs"
      "tests_skip s' = tests_skip s1 + count_of ''skip'' xs"
    unfolding add_failure_counts by blast
  have c: "classify (rt # xs) s = Inr s'"
    by (simp add: s1(1) s'(1))
  show ?case
    unfolding c count_of_Cons[of _ rt xs] using s1(2-5) s'(2-5) by simp
qed









lemma TestSummary_init_counts:
  "\<exists>summary. TestSummary_init build = Inr summary
     \<and> tests_pass summary = count_of ''pass'' (counted_tests build)
     \<and> tests_fail summary = count_of ''fail'' (counted_tests build)
     \<and> tests_xfail summary = count_of ''xfail'' (counted_tests build)
     \<and> tests_skip summary = count_of ''skip'' (counted_tests build)"
  using classify_counts[of "counted_tests build"
      "\<lparr>tests_pass = 0, tests_fail = 0, tests_xfail = 0, tests_skip = 0, failures = []\<rparr>"]
  by (simp add: TestSummary_init_def)

lemmas example_defs = env_a_def test_x_pass_def test_x_fail_def run_1_def run_2_def build_dup_def
  env_negative_def build_negative_def env_two_def run_3_def build_two_envs_def
  build_foreign_def ext_example_def status_five_def status_zero_def plain_build_def
  builds_example_def statuses_example_def test_at_def run_at_def build_at_def
  builds_history_def row_at_def run_noisy_def run_other_environment_def build_noisy_def
  build_same_time_def run_meta_def build_meta_def yaml_load_example_def

subsection \<open>The testruns dictionary of Build.finished\<close>

lemma dict_set_fresh: "k \<notin> fst ` set d \<Longrightarrow> dict_set k v d = d @ [(k, v)]"
  by (induction d) auto

lemma fold_dict_set_fresh:
  "distinct (map key xs) \<Longrightarrow> set (map key xs) \<inter> fst ` set d = {} \<Longrightarrow>
     fold (\<lambda>e. dict_set (key e) (f e)) xs d = d @ map (\<lambda>e. (key e, f e)) xs"
proof (induction xs arbitrary: d)
  case Nil
  then show ?case by simp
next
  case (Cons x xs)
  from Cons.prems have fresh: "key x \<notin> fst ` set d" by auto
  have step: "dict_set (key x) (f x) d = d @ [(key x, f x)]"
    using fresh by (rule dict_set_fresh)
  have "set (map key xs) \<inter> fst ` set (d @ [(key x, f x)]) = {}"
    using Cons.prems by auto
  with Cons.IH[of "d @ [(key x, f x)]"] Cons.prems(1) show ?case
    by (simp add: step)
qed

lemma initial_testruns_table:
  "distinct (map environment_id envs) \<Longrightarrow>
     initial_testruns envs = testruns_table (\<lambda>i. 0) envs"
  using fold_dict_set_fresh[of environment_id envs "[]"
      "\<lambda>e. \<lparr>entry_name = environment_str e, entry_expected = expected_test_runs e,
              entry_received = 0\<rparr>"]
  by (simp add: initial_testruns_def testruns_table_def entry_of_def)

lemma map_of_keyed_map:
  "distinct (map key xs) \<Longrightarrow> x \<in> set xs \<Longrightarrow>
     map_of (map (\<lambda>e. (key e, f e)) xs) (key x) = Some (f x)"
  by (induction xs) (auto simp: rev_image_eqI)

lemma dict_set_keyed_map:
  "distinct (map key xs) \<Longrightarrow> x \<in> set xs \<Longrightarrow>
     dict_set (key x) v (map (\<lambda>e. (key e, f e)) xs) =
     map (\<lambda>e. (key e, if key e = key x then v else f e)) xs"
proof (induction xs)
  case Nil
  then show ?case by simp
next
  case (Cons y ys)
  show ?case
  proof (cases "key y = key x")
    case True
    with Cons.prems have "key x \<notin> key ` set ys" by simp
    then have "\<forall>e\<in>set ys. key e \<noteq> key x" by (metis imageI)
    then have "map (\<lambda>e. (key e, if key e = key x then v else f e)) ys =
               map (\<lambda>e. (key e, f e)) ys"
      by (intro map_cong) auto
    with True show ?thesis by simp
  next
    case False
    with Cons.prems have "x \<in> set ys" "distinct (map key ys)" by auto
    with Cons.IH False show ?thesis by simp
  qed
qed

lemma count_received_table:
  assumes "distinct (map environment_id envs)"
    and "\<forall>t\<in>set ts. environment_id (environment t) \<in> set (map environment_id envs)"
  shows "count_received ts (testruns_table c envs) =
     Inr (testruns_table
            (\<lambda>i. c i + int (length (filter (\<lambda>t. environment_id (environment t) = i) ts)))
            envs)"
  using assms(2)
proof (induction ts arbitrary: c)
  case Nil
  show ?case by simp
next
  case (Cons t ts)
  let ?i = "environment_id (environment t)"
  from Cons.prems obtain e where e: "e \<in> set envs" "environment_id e = ?i" by auto
  have look: "map_of (testruns_table c envs) ?i = Some (entry_of c e)"
    using map_of_keyed_map[OF assms(1) e(1), of "entry_of c"] e(2)
    by (simp add: testruns_table_def)
  have upd: "dict_set ?i ((entry_of c e)\<lparr>entry_received := entry_received (entry_of c e) + 1\<rparr>)
        (testruns_table c envs) = testruns_table (c(?i := c ?i + 1)) envs"
  proof -
    have "dict_set (environment_id e)
        ((entry_of c e)\<lparr>entry_received := entry_received (entry_of c e) + 1\<rparr>)
        (map (\<lambda>e. (environment_id e, entry_of c e)) envs) =
      map (\<lambda>e'. (environment_id e', if environment_id e' = environment_id e
          then (entry_of c e)\<lparr>entry_received := entry_received (entry_of c e) + 1\<rparr>
          else entry_of c e')) envs"
      by (rule dict_set_keyed_map[OF assms(1) e(1)])
    also have "\<dots> = map (\<lambda>e'. (environment_id e', entry_of (c(?i := c ?i + 1)) e')) envs"
    proof (rule map_cong[OF refl])
      fix e' assume e': "e' \<in> set envs"
      have "environment_id e' = environment_id e \<Longrightarrow> e' = e"
        using assms(1) e(1) e' by (simp add: distinct_map inj_on_def)
      then show "(environment_id e', if environment_id e' = environment_id e
          then (entry_of c e)\<lparr>entry_received := entry_received (entry_of c e) + 1\<rparr>
          else entry_of c e') = (environment_id e', entry_of (c(?i := c ?i + 1)) e')"
        using e(2) by (auto simp: entry_of_def)
    qed
    finally show ?thesis by (simp add: testruns_table_def e(2))
  qed
  have "count_received (t # ts) (testruns_table c envs) =
        count_received ts (testruns_table (c(?i := c ?i + 1)) envs)"
    by (simp add: look upd)
  also have "\<dots> = Inr (testruns_table
            (\<lambda>i. (c(?i := c ?i + 1)) i + int (length (filter (\<lambda>t. environment_id (environment t) = i) ts)))
            envs)"
    using Cons.prems by (intro Cons.IH) simp
  also have "(\<lambda>i. (c(?i := c ?i + 1)) i + int (length (filter (\<lambda>t. environment_id (environment t) = i) ts)))
      = (\<lambda>i. c i + int (length (filter (\<lambda>t. environment_id (environment t) = i) (t # ts))))"
    by (rule ext) simp
  finally show ?case .
qed


lemma job_reasons_Nil_iff: "(job_reasons js = []) = (\<not> list_ex (\<lambda>j. \<not> fetched j) js)"
proof (cases "filter (\<lambda>j. fetched j = False) js = []")
  case True
  then have "\<not> list_ex (\<lambda>j. \<not> fetched j) js"
    by (simp add: list_ex_iff filter_empty_conv)
  with True show ?thesis by (simp add: job_reasons_def)
next
  case False
  then have "list_ex (\<lambda>j. \<not> fetched j) js" and "js \<noteq> []"
    by (auto simp: list_ex_iff filter_empty_conv)
  with False show ?thesis by (simp add: job_reasons_def)
qed

lemma environment_reasons_Nil_iff:
  assumes "0 \<le> c (environment_id e)"
  shows "(environment_reasons (entry_of c e) = []) =
     (case expected_test_runs e of
        None \<Rightarrow> c (environment_id e) \<ge> 1
      | Some n \<Rightarrow> if n = 0 then True else if n > 0 then c (environment_id e) \<ge> n
                 else c (environment_id e) \<ge> 1)"
proof (cases "expected_test_runs e")
  case None
  with assms show ?thesis
    by (auto simp: environment_reasons_def entry_of_def)
next
  case (Some n)
  consider "n = 0" | "n > 0" | "n < 0" by linarith
  then show ?thesis
  proof cases
    case 1
    with Some show ?thesis by (simp add: environment_reasons_def entry_of_def)
  next
    case 2
    with Some assms show ?thesis
      by (cases "c (environment_id e) = 0") (auto simp: environment_reasons_def entry_of_def)
  next
    case 3
    with Some assms show ?thesis
      by (cases "c (environment_id e) = 0") (auto simp: environment_reasons_def entry_of_def)
  qed
qed

lemma concat_map_Nil_iff: "(concat (map f xs) = []) = list_all (\<lambda>x. f x = []) xs"
  by (induction xs) auto

lemma finished_table:
  assumes "well_formed build"
  shows "finished build =
     Inr (let reasons = job_reasons (test_jobs build) @
            concat (map (\<lambda>e. environment_reasons (entry_of (\<lambda>i. int (length
                       (filter (\<lambda>t. completed t \<and> environment_id (environment t) = i)
                          (test_runs build)))) e))
                      (environments build))
          in (reasons = [], reasons))"
proof -
  let ?envs = "environments build"
  let ?runs = "filter (\<lambda>t. completed t = True) (test_runs build)"
  let ?c = "\<lambda>i. int (length (filter (\<lambda>t. completed t \<and> environment_id (environment t) = i)
                          (test_runs build)))"
  from assms have d: "distinct (map environment_id ?envs)"
    and m: "\<forall>t\<in>set ?runs. environment_id (environment t) \<in> set (map environment_id ?envs)"
    by (auto simp: well_formed_def list_all_iff)
  have c: "(\<lambda>i. 0 + int (length (filter (\<lambda>t. environment_id (environment t) = i) ?runs))) = ?c"
    by (rule ext) (simp add: conj_commute)
  have "count_received ?runs (initial_testruns ?envs) = Inr (testruns_table ?c ?envs)"
    using count_received_table[OF d m, of "\<lambda>i. 0"]
    unfolding c initial_testruns_table[OF d] .
  moreover have "map (\<lambda>(env, count). environment_reasons count) (testruns_table ?c ?envs) =
      map (\<lambda>e. environment_reasons (entry_of ?c e)) ?envs"
    by (simp add: testruns_table_def)
  ultimately show ?thesis
    by (simp add: finished_def Let_def)
qed

subsection \<open>The update branch of create_or_update\<close>





subsection \<open>The loop of Test.history\<close>

lemma since_history_loop:
  "since (history_loop res ts h) =
     (if takeWhile (\<lambda>t. result t = res) ts = [] then since h
      else Some (last (takeWhile (\<lambda>t. result t = res) ts)))"
  by (induction ts arbitrary: h) simp_all

lemma count_history_loop:
  "count (history_loop res ts h) = count h + int (length (takeWhile (\<lambda>t. result t = res) ts))"
  by (induction ts arbitrary: h) simp_all

lemma last_different_history_loop:
  "last_different (history_loop res ts h) =
     (case dropWhile (\<lambda>t. result t = res) ts of [] \<Rightarrow> last_different h | t # _ \<Rightarrow> Some t)"
  by (induction ts arbitrary: h) (simp_all cong: list.case_cong)

lemma history_loop_takeWhile:
  "history_loop res ts \<lparr>since = None, count = 0, last_different = None\<rparr> =
     \<lparr>since = (if takeWhile (\<lambda>t. result t = res) ts = [] then None
                else Some (last (takeWhile (\<lambda>t. result t = res) ts))),
      count = int (length (takeWhile (\<lambda>t. result t = res) ts)),
      last_different = (case dropWhile (\<lambda>t. result t = res) ts of
                          [] \<Rightarrow> None | t # _ \<Rightarrow> Some t)\<rparr>"
  by (rule History.equality)
     (simp_all add: since_history_loop count_history_loop last_different_history_loop
        cong: list.case_cong)

lemma sorted_newest_first:
  "sorted_wrt (\<lambda>x y. datetime (fst x) \<ge> datetime (fst y)) (previous_tests builds self)"
proof -
  have "sorted (map (\<lambda>row. - datetime (fst row)) (previous_tests builds self))"
    by (simp add: previous_tests_def)
  then show ?thesis
    by (simp add: sorted_wrt_map)
qed

subsection \<open>The loops of Build.metadata\<close>

lemma py_eq_list_refl: "(\<And>x. x \<in> set xs \<Longrightarrow> py_eq x x) \<Longrightarrow> py_eq_list xs xs"
  by (induction xs) simp_all

lemma py_eq_refl: "py_eq v v"
  by (induction v) (simp_all add: py_eq_list_refl)

lemma py_in_snoc: "py_in v (acc @ [v])"
  by (simp add: py_in_def py_eq_refl)

lemma py_in_append: "py_in v acc \<Longrightarrow> py_in v (acc @ ws)"
  by (auto simp: py_in_def list_ex_iff)

lemma map_of_setdefault:
  "map_of (setdefault k v d) = (case map_of d k of None \<Rightarrow> (map_of d)(k \<mapsto> v) | Some _ \<Rightarrow> map_of d)"
  by (simp add: setdefault_def map_of_dict_set split: option.splits)

lemma map_of_add_value:
  "map_of (add_value key v md) =
     (map_of md)(key \<mapsto> add_distinct v (case map_of md key of None \<Rightarrow> [] | Some acc \<Rightarrow> acc))"
proof (cases "map_of md key")
  case None
  then show ?thesis
    by (simp add: add_value_def Let_def map_of_setdefault map_of_dict_set add_distinct_def)
next
  case (Some acc)
  then have "(map_of md)(key \<mapsto> acc) = map_of md"
    by (simp add: fun_upd_idem)
  with Some show ?thesis
    by (simp add: add_value_def Let_def map_of_setdefault map_of_dict_set add_distinct_def)
qed

lemma distinct_setdefault: "distinct (map fst d) \<Longrightarrow> distinct (map fst (setdefault k v d))"
  by (simp add: setdefault_def distinct_dict_set split: option.splits)

lemma distinct_add_value: "distinct (map fst md) \<Longrightarrow> distinct (map fst (add_value key v md))"
  by (simp add: add_value_def Let_def distinct_setdefault distinct_dict_set)

lemma fold_add_items: "fold add_items maps md = add_items (concat maps) md"
  by (induction maps arbitrary: md) (simp_all add: add_items_def)

lemma collect_metadata_items: "collect_metadata maps = add_items (concat maps) []"
proof -
  have "(\<lambda>m md. fold (\<lambda>(key, v). add_value key v) m md) = add_items"
    by (intro ext) (simp add: add_items_def)
  then show ?thesis
    by (simp add: collect_metadata_def fold_add_items)
qed

lemma distinct_add_items: "distinct (map fst md) \<Longrightarrow> distinct (map fst (add_items items md))"
  by (induction items arbitrary: md) (auto simp: add_items_def distinct_add_value)

lemma map_of_add_items:
  "map_of (add_items items md) key =
     (let vals = map snd (filter (\<lambda>item. fst item = key) items) in
      case map_of md key of
        None \<Rightarrow> (if vals = [] then None else Some (fold add_distinct vals []))
      | Some acc \<Rightarrow> Some (fold add_distinct vals acc))"
proof (induction items arbitrary: md)
  case Nil
  show ?case by (simp add: add_items_def split: option.splits)
next
  case (Cons item items)
  obtain k v where item: "item = (k, v)" by (cases item)
  have step: "add_items (item # items) md = add_items items (add_value k v md)"
    by (simp add: add_items_def item)
  show ?case
  proof (cases "k = key")
    case True
    then show ?thesis
      unfolding step Cons.IH
      by (simp add: item map_of_add_value Let_def split: option.splits)
  next
    case False
    then show ?thesis
      unfolding step Cons.IH
      by (simp add: item map_of_add_value Let_def)
  qed
qed

lemma fold_add_distinct_nonempty: "acc \<noteq> [] \<Longrightarrow> fold add_distinct vals acc \<noteq> []"
  by (induction vals arbitrary: acc) (simp_all add: add_distinct_def)

lemma distinct_values_nonempty: "vals \<noteq> [] \<Longrightarrow> distinct_values vals \<noteq> []"
  by (cases vals)
     (simp_all add: distinct_values_def add_distinct_def fold_add_distinct_nonempty py_in_def)

lemma map_of_collect_metadata:
  "map_of (collect_metadata maps) key =
     (if values_of key maps = [] then None else Some (distinct_values (values_of key maps)))"
  by (simp add: collect_metadata_items map_of_add_items values_of_def distinct_values_def Let_def)

lemma map_of_merge_metadata:
  "map_of (merge_metadata str maps) key =
     (case distinct_values (values_of key maps) of
        [] \<Rightarrow> None
      | [v] \<Rightarrow> Some v
      | vs \<Rightarrow> Some (JList (sort_key str vs)))"
proof -
  have "map_of (merge_metadata str maps) key =
      map_option (merge_values str) (map_of (collect_metadata maps) key)"
    by (simp add: merge_metadata_def map_of_map)
  also have "\<dots> = (if values_of key maps = [] then None
      else Some (merge_values str (distinct_values (values_of key maps))))"
    by (simp add: map_of_collect_metadata)
  also have "\<dots> = (case distinct_values (values_of key maps) of
        [] \<Rightarrow> None
      | [v] \<Rightarrow> Some v
      | vs \<Rightarrow> Some (JList (sort_key str vs)))"
  proof (cases "values_of key maps = []")
    case True
    then show ?thesis by (simp add: distinct_values_def)
  next
    case False
    from distinct_values_nonempty[OF this] obtain v vs where
      d: "distinct_values (values_of key maps) = v # vs"
      by (cases "distinct_values (values_of key maps)") auto
    show ?thesis
      using False by (cases vs) (simp_all add: d merge_values_def)
  qed
  finally show ?thesis .
qed

lemma add_distinct_sorted_wrt:
  "sorted_wrt (\<lambda>item v. \<not> py_eq item v) acc \<Longrightarrow>
     sorted_wrt (\<lambda>item v. \<not> py_eq item v) (add_distinct v acc)"
  by (auto simp: add_distinct_def sorted_wrt_append py_in_def list_ex_iff)

lemma fold_add_distinct_sorted_wrt:
  "sorted_wrt (\<lambda>item v. \<not> py_eq item v) acc \<Longrightarrow>
     sorted_wrt (\<lambda>item v. \<not> py_eq item v) (fold add_distinct vals acc)"
  by (induction vals arbitrary: acc) (simp_all add: add_distinct_sorted_wrt)

lemma py_in_add_distinct: "py_in v acc \<Longrightarrow> py_in v (add_distinct w acc)"
  by (simp add: add_distinct_def py_in_append)

lemma py_in_fold_add_distinct: "py_in v acc \<Longrightarrow> py_in v (fold add_distinct vals acc)"
  by (induction vals arbitrary: acc) (simp_all add: py_in_add_distinct)

lemma fold_add_distinct_covers:
  "list_all (\<lambda>v. py_in v (fold add_distinct vals acc)) vals"
proof (induction vals arbitrary: acc)
  case Nil
  show ?case by simp
next
  case (Cons v vals)
  have "py_in v (add_distinct v acc)"
    by (simp add: add_distinct_def py_in_snoc)
  then have "py_in v (fold add_distinct vals (add_distinct v acc))"
    by (rule py_in_fold_add_distinct)
  with Cons.IH[of "add_distinct v acc"] show ?case by simp
qed


lemma distinct_collect_metadata: "distinct (map fst (collect_metadata maps))"
  by (simp add: collect_metadata_items distinct_add_items)

lemma keys_merge_metadata: "map fst (merge_metadata str maps) = map fst (collect_metadata maps)"
  by (simp add: merge_metadata_def case_prod_unfold comp_def)

lemma distinct_merge_metadata: "distinct (map fst (merge_metadata str maps))"
  by (simp add: keys_merge_metadata distinct_collect_metadata)

lemma dict_set_last: "k \<notin> fst ` set d \<Longrightarrow> dict_set k v (d @ [(k, w)]) = d @ [(k, v)]"
  by (induction d) auto

lemma add_value_fresh:
  assumes "key \<notin> fst ` set md"
  shows "add_value key v md = md @ [(key, [v])]"
proof -
  have none: "map_of md key = None"
    using assms by (simp add: map_of_eq_None_iff)
  then have sd: "setdefault key [] md = md @ [(key, [])]"
    by (simp add: setdefault_def dict_set_fresh[OF assms])
  have look: "map_of (md @ [(key, [])]) key = Some []"
    using none by (simp add: map_add_def)
  have vs: "(case map_of (md @ [(key, [])]) key of None \<Rightarrow> [] | Some vs \<Rightarrow> vs) = []"
    unfolding look by simp
  show ?thesis
    unfolding add_value_def Let_def sd vs
    by (simp add: py_in_def dict_set_last[OF assms])
qed

lemma add_items_fresh:
  "distinct (map fst m) \<Longrightarrow> fst ` set m \<inter> fst ` set md = {} \<Longrightarrow>
     add_items m md = md @ map (\<lambda>(k, v). (k, [v])) m"
proof (induction m arbitrary: md)
  case Nil
  show ?case by (simp add: add_items_def)
next
  case (Cons item m)
  obtain k v where item: "item = (k, v)" by (cases item)
  from Cons.prems have fresh: "k \<notin> fst ` set md" by (auto simp: item)
  have step: "add_items (item # m) md = add_items m (md @ [(k, [v])])"
    by (simp add: add_items_def item add_value_fresh[OF fresh])
  have "fst ` set m \<inter> fst ` set (md @ [(k, [v])]) = {}"
    using Cons.prems by (auto simp: item)
  with Cons.IH[of "md @ [(k, [v])]"] Cons.prems(1) show ?case
    unfolding step by (simp add: item)
qed

lemma merge_values_single: "merge_values str [v] = v"
  by (simp add: merge_values_def)

lemma collect_single:
  "distinct (map fst m) \<Longrightarrow> collect_metadata [m] = map (\<lambda>(k, v). (k, [v])) m"
  using add_items_fresh[of m "[]"] by (simp add: collect_metadata_items)

lemma merge_single:
  assumes "distinct (map fst m)"
  shows "merge_metadata str [m] = m"
proof -
  have "merge_metadata str [m] = map (\<lambda>(k, v). (k, merge_values str [v])) m"
    by (simp add: merge_metadata_def collect_single[OF assms] case_prod_unfold comp_def)
  then show ?thesis
    by (simp add: merge_values_single)
qed

lemma add_value_same:
  assumes "map_of md key = Some [v]"
  shows "add_value key v md = md"
  using assms by (simp add: add_value_def Let_def setdefault_def py_in_def py_eq_refl)

lemma add_items_same:
  "(\<And>k v. (k, v) \<in> set items \<Longrightarrow> map_of md k = Some [v]) \<Longrightarrow> add_items items md = md"
proof (induction items)
  case Nil
  show ?case by (simp add: add_items_def)
next
  case (Cons item items)
  obtain k v where item: "item = (k, v)" by (cases item)
  have "add_value k v md = md"
    by (rule add_value_same) (simp add: Cons.prems item)
  then have "add_items (item # items) md = add_items items md"
    by (simp add: add_items_def item)
  also have "\<dots> = md"
    by (rule Cons.IH) (simp add: Cons.prems)
  finally show ?case .
qed

lemma merge_twice:
  assumes "distinct (map fst m)"
  shows "merge_metadata str [m, m] = m"
proof -
  let ?md = "map (\<lambda>(k, v). (k, [v])) m"
  have first: "add_items m [] = ?md"
    using add_items_fresh[of m "[]"] assms by simp
  have look: "map_of ?md k = Some [v]" if "(k, v) \<in> set m" for k v
  proof (rule map_of_is_SomeI)
    show "distinct (map fst ?md)"
      using assms by (simp add: case_prod_unfold comp_def)
    show "(k, [v]) \<in> set ?md"
      using that by force
  qed
  have second: "add_items m ?md = ?md"
    by (rule add_items_same) (rule look)
  have "collect_metadata [m, m] = add_items m (add_items m [])"
    by (simp add: collect_metadata_def add_items_def)
  then have "collect_metadata [m, m] = collect_metadata [m]"
    by (simp add: first second collect_single[OF assms])
  then have "merge_metadata str [m, m] = merge_metadata str [m]"
    by (simp add: merge_metadata_def)
  then show ?thesis
    by (simp add: merge_single[OF assms])
qed

lemma build_meta_values:
  "values_of ''k'' (map metadata (test_runs build_meta)) = [JList [JStr ''a'', JStr ''b''], JStr ''a'']"
  "values_of ''n'' (map metadata (test_runs build_meta)) = [JInt 1, JInt 1]"
  by (simp_all add: values_of_def example_defs)

lemma str_plain_examples:
  "str_plain (JStr s) = s"
  "str_plain (JList [JStr ''a'', JStr ''b'']) =
     ''['' @ [CHR 0x27] @ ''a'' @ [CHR 0x27] @ '', '' @ [CHR 0x27] @ ''b'' @ [CHR 0x27] @ '']''"
  by (simp_all add: str_plain_def)

lemma build_meta_distinct:
  "distinct_values [JList [JStr ''a'', JStr ''b''], JStr ''a''] =
     [JList [JStr ''a'', JStr ''b''], JStr ''a'']"
  "distinct_values [JStr ''a'', JStr ''b'', JStr ''a''] = [JStr ''a'', JStr ''b'']"
  "distinct_values [JInt 1, JInt 1] = [JInt 1]"
  by (simp_all add: distinct_values_def add_distinct_def py_in_def)

lemma build_meta_merged:
  "Build_metadata str_plain build_meta =
     [(''k'', JList [JList [JStr ''a'', JStr ''b''], JStr ''a'']), (''n'', JInt 1)]"
  by (simp add: Build_metadata_def merge_metadata_def collect_metadata_def add_value_def
      setdefault_def py_in_def merge_values_def str_plain_examples example_defs)

subsection \<open>Percentages\<close>








subsection \<open>Test status and the summary of a build\<close>

text \<open>
  C10.  \<^verbatim>\<open>Test.status\<close> returns one of \<^verbatim>\<open>pass\<close>, \<^verbatim>\<open>fail\<close>, \<^verbatim>\<open>xfail\<close> and
  \<^verbatim>\<open>skip\<close> for every test, so the classification of a test never takes the
  \<^verbatim>\<open>InvalidTestStatus\<close> branch and building the \<^verbatim>\<open>TestSummary\<close> of any
  build returns a summary.
\<close>

theorem status_is_total:
  "status t \<in> {''pass'', ''fail'', ''xfail'', ''skip''}
   \<and> (\<exists>s'. count_status (status t) s = Inr s')
   \<and> (\<exists>summary. TestSummary_init build = Inr summary)"
proof -
  have "status t \<in> {''pass'', ''fail'', ''xfail'', ''skip''}"
    using status_cases[of t] by blast
  moreover have "\<exists>s'. count_status (status t) s = Inr s'"
    using classify_step[of "(undefined, t)" s] by auto
  moreover have "\<exists>summary. TestSummary_init build = Inr summary"
    using TestSummary_init_counts[of build] by blast
  ultimately show ?thesis by blast
qed

theorem status_is_total_witness:
  "status test_x_fail = ''fail''
   \<and> (\<exists>summary. TestSummary_init build_dup = Inr summary)"
  using status_is_total [of test_x_fail undefined build_dup]
  by (simp add: status_def test_x_fail_def)



subsection \<open>Finished builds\<close>

text \<open>
  C1 (as amended).  Take a build whose project's environments have distinct ids and
  whose completed test runs all belong to environments of the project (otherwise the
  lookup of the received count raises \<^verbatim>\<open>KeyError\<close>).  Then \<^verbatim>\<open>Build.finished\<close>
  returns the pair of \<^verbatim>\<open>len(reasons) == 0\<close> and the reasons, and the reasons are
  empty exactly when (a) no CI test job of the build is unfetched and (b) every
  environment of the project with \<^verbatim>\<open>expected_test_runs != 0\<close> has received at least
  \<^verbatim>\<open>expected_test_runs\<close> completed runs when that number is positive, and at least
  one when it is unset or negative.
\<close>

theorem finished_iff:
  assumes "well_formed build"
  shows "\<exists>reasons. finished build = Inr (reasons = [], reasons)
     \<and> (reasons = []) =
        (\<not> pending_jobs build \<and> list_all (environment_satisfied build) (environments build))"
proof -
  let ?c = "\<lambda>i. int (length (filter (\<lambda>t. completed t \<and> environment_id (environment t) = i)
                          (test_runs build)))"
  let ?er = "\<lambda>e. environment_reasons (entry_of ?c e)"
  let ?reasons = "job_reasons (test_jobs build) @ concat (map ?er (environments build))"
  have fin: "finished build = Inr (?reasons = [], ?reasons)"
    using finished_table[OF assms] by (simp add: Let_def)
  have env: "(?er e = []) = environment_satisfied build e" for e
    unfolding environment_satisfied_def received_def
    by (rule environment_reasons_Nil_iff[of ?c e]) simp
  have "(?reasons = []) =
      (\<not> pending_jobs build \<and> list_all (environment_satisfied build) (environments build))"
    by (simp add: job_reasons_Nil_iff concat_map_Nil_iff env pending_jobs_def list_all_iff)
  with fin show ?thesis by blast
qed

theorem finished_iff_witness:
  "well_formed build_two_envs
   \<and> finished build_two_envs =
       Inr (False, [''2 test runs expected for Bee, but only 1 received so far''])
   \<and> \<not> list_all (environment_satisfied build_two_envs) (environments build_two_envs)
   \<and> well_formed build_dup \<and> finished build_dup = Inr (True, [])
   \<and> list_all (environment_satisfied build_dup) (environments build_dup)"
proof -
  have w1: "well_formed build_two_envs" and w2: "well_formed build_dup"
    by (simp_all add: well_formed_def example_defs)
  have f1: "finished build_two_envs =
       Inr (False, [''2 test runs expected for Bee, but only 1 received so far''])"
    by (simp add: finished_def initial_testruns_def environment_reasons_def
      job_reasons_def environment_str_def format_d_def example_defs)
  have f2: "finished build_dup = Inr (True, [])"
    by (simp add: finished_def initial_testruns_def environment_reasons_def
      job_reasons_def environment_str_def format_d_def example_defs)
  have np: "\<not> pending_jobs build_two_envs"
    by (simp add: pending_jobs_def example_defs)
  from finished_iff [OF w1] f1 np
  have "\<not> list_all (environment_satisfied build_two_envs) (environments build_two_envs)"
    by auto
  moreover from finished_iff [OF w2] f2
  have "list_all (environment_satisfied build_dup) (environments build_dup)"
    by auto
  ultimately show ?thesis using w1 w2 f1 f2 by blast
qed

text \<open>
  The claim as stated asks nothing of an environment with a negative
  \<^verbatim>\<open>expected_test_runs\<close>; the code asks for one run.  With one such environment and
  no run the build is not finished although the claimed condition holds.  A completed
  run in an environment that is not among the project's makes the property raise.
\<close>

theorem finished_negative_expected_counterexample:
  "well_formed build_negative
   \<and> finished build_negative = Inr (False, [''No test runs for n received so far''])
   \<and> \<not> pending_jobs build_negative
   \<and> list_all (claimed_environment_satisfied build_negative) (environments build_negative)
   \<and> finished build_foreign = Inl KeyError"
  by (simp add: well_formed_def finished_def initial_testruns_def environment_reasons_def
      job_reasons_def environment_str_def pending_jobs_def claimed_environment_satisfied_def
      received_def example_defs)

subsection \<open>The status of a build\<close>




text \<open>
  C3.  The query for the previous build does not order the candidates by their own
  \<^verbatim>\<open>datetime\<close>.  In the example database the finished builds before build 13 are
  builds 11 (time 1) and 12 (time 2); the query returns build 11, whose patch build
  is the later one, on every database, while the build the claim names and the one
  \<^verbatim>\<open>ProjectStatus.get_previous\<close> returns is build 12.
\<close>

theorem previous_build_orders_by_patch_builds:
  "previous_build True builds_example statuses_example (plain_build 13 3 None) =
     [plain_build 11 1 None]
   \<and> previous_build False builds_example statuses_example (plain_build 13 3 None) =
     [plain_build 11 1 None]
   \<and> latest_finished_before builds_example statuses_example (plain_build 13 3 None)
       (plain_build 12 2 None)
   \<and> \<not> latest_finished_before builds_example statuses_example (plain_build 13 3 None)
       (plain_build 11 1 None)
   \<and> get_previous builds_example statuses_example (plain_build 13 3 None) =
     [plain_build 12 2 None]"
  by (simp add: previous_build_def previous_build_rows_def ordering_rows_def qualifying_def
      key_le_def latest_finished_before_def get_previous_def example_defs)

subsection \<open>The history of a test\<close>

text \<open>
  C7.  \<^verbatim>\<open>Test.history\<close> walks the other tests of the same suite, name and environment
  whose build is strictly earlier than the test's own build, newest first.  \<^verbatim>\<open>count\<close>
  is the length of the leading stretch of tests with the test's own raw result,
  \<^verbatim>\<open>since\<close> the last (oldest) test of that stretch, and \<^verbatim>\<open>last_different\<close> the first
  test after it, where the walk stops.  With no previous test the history is
  \<^verbatim>\<open>since=None, count=0, last_different=None\<close>.
\<close>

theorem history_walks_previous_tests:
  "(\<forall>b r t. (b, r, t) \<in> set (previous_tests builds (b0, r0, t0)) \<longleftrightarrow>
       b \<in> set builds \<and> r \<in> set (test_runs b) \<and> t \<in> set (tests r)
       \<and> suite t = suite t0 \<and> name t = name t0
       \<and> environment_id (environment r) = environment_id (environment r0)
       \<and> datetime b < datetime b0 \<and> test_id t \<noteq> test_id t0)
   \<and> length (previous_tests builds (b0, r0, t0)) =
       length (filter (\<lambda>(b, r, t). suite t = suite t0 \<and> name t = name t0
                 \<and> environment_id (environment r) = environment_id (environment r0)
                 \<and> datetime b < datetime b0 \<and> test_id t \<noteq> test_id t0)
               (concat (map (\<lambda>b. concat (map (\<lambda>r. map (\<lambda>t. (b, r, t)) (tests r))
                                               (test_runs b))) builds)))
   \<and> sorted_wrt (\<lambda>x y. datetime (fst x) \<ge> datetime (fst y)) (previous_tests builds (b0, r0, t0))
   \<and> history builds (b0, r0, t0) =
     (let prev = map (\<lambda>row. snd (snd row)) (previous_tests builds (b0, r0, t0));
          same = takeWhile (\<lambda>t. result t = result t0) prev;
          rest = dropWhile (\<lambda>t. result t = result t0) prev
      in \<lparr>since = (if same = [] then None else Some (last same)),
          count = int (length same),
          last_different = (case rest of [] \<Rightarrow> None | t # _ \<Rightarrow> Some t)\<rparr>)
   \<and> (previous_tests builds (b0, r0, t0) = [] \<longrightarrow>
        history builds (b0, r0, t0) = \<lparr>since = None, count = 0, last_different = None\<rparr>)"
proof -
  let ?self = "(b0, r0, t0)"
  have mem: "(b, r, t) \<in> set (all_tests builds) \<longleftrightarrow>
      b \<in> set builds \<and> r \<in> set (test_runs b) \<and> t \<in> set (tests r)" for b r t
    by (auto simp: all_tests_def)
  have walked: "\<forall>b r t. (b, r, t) \<in> set (previous_tests builds ?self) \<longleftrightarrow>
       b \<in> set builds \<and> r \<in> set (test_runs b) \<and> t \<in> set (tests r)
       \<and> suite t = suite t0 \<and> name t = name t0
       \<and> environment_id (environment r) = environment_id (environment r0)
       \<and> datetime b < datetime b0 \<and> test_id t \<noteq> test_id t0"
    by (auto simp: previous_tests_def mem is_previous_test_def)
  have pred: "is_previous_test ?self =
      (\<lambda>(b, r, t). suite t = suite t0 \<and> name t = name t0
         \<and> environment_id (environment r) = environment_id (environment r0)
         \<and> datetime b < datetime b0 \<and> test_id t \<noteq> test_id t0)"
    by (auto simp: is_previous_test_def fun_eq_iff)
  have len: "length (previous_tests builds ?self) =
       length (filter (\<lambda>(b, r, t). suite t = suite t0 \<and> name t = name t0
                 \<and> environment_id (environment r) = environment_id (environment r0)
                 \<and> datetime b < datetime b0 \<and> test_id t \<noteq> test_id t0)
               (concat (map (\<lambda>b. concat (map (\<lambda>r. map (\<lambda>t. (b, r, t)) (tests r))
                                               (test_runs b))) builds)))"
    unfolding previous_tests_def pred all_tests_def by simp
  have empty: "previous_tests builds ?self = [] \<longrightarrow>
        history builds ?self = \<lparr>since = None, count = 0, last_different = None\<rparr>"
    by (simp add: history_def)
  have walk: "history builds ?self =
     (let prev = map (\<lambda>row. snd (snd row)) (previous_tests builds ?self);
          same = takeWhile (\<lambda>t. result t = result t0) prev;
          rest = dropWhile (\<lambda>t. result t = result t0) prev
      in \<lparr>since = (if same = [] then None else Some (last same)),
          count = int (length same),
          last_different = (case rest of [] \<Rightarrow> None | t # _ \<Rightarrow> Some t)\<rparr>)"
    unfolding history_def Let_def snd_conv by (rule history_loop_takeWhile)
  from walked len sorted_newest_first[of builds ?self] walk empty show ?thesis by blast
qed

theorem history_walks_previous_tests_witness:
  "map (\<lambda>row. test_id (snd (snd row)))
       (previous_tests builds_history (build_at 10 (Some True), run_at 10 (Some True),
          test_at 10 (Some True)))
     = [9, 8, 7, 6]
   \<and> history builds_history (build_at 10 (Some True), run_at 10 (Some True),
        test_at 10 (Some True)) =
     \<lparr>since = Some (test_at 8 (Some True)), count = 2,
      last_different = Some (test_at 7 (Some False))\<rparr>
   \<and> previous_tests builds_history (build_at 6 (Some True), run_at 6 (Some True),
        test_at 6 (Some True)) = []
   \<and> history builds_history (build_at 6 (Some True), run_at 6 (Some True),
        test_at 6 (Some True)) =
     \<lparr>since = None, count = 0, last_different = None\<rparr>"
proof -
  let ?self = "(build_at 10 (Some True), run_at 10 (Some True), test_at 10 (Some True))"
  let ?first = "(build_at 6 (Some True), run_at 6 (Some True), test_at 6 (Some True))"
  have p: "previous_tests builds_history ?self =
      [(build_noisy, run_noisy, test_at 9 (Some True)), row_at 8 (Some True),
       row_at 7 (Some False), row_at 6 (Some True)]"
    by (simp add: previous_tests_def all_tests_def is_previous_test_def example_defs)
  have q: "previous_tests builds_history ?first = []"
    by (simp add: previous_tests_def all_tests_def is_previous_test_def example_defs)
  have r: "snd (snd (row_at i x)) = test_at i x" "result (test_at i x) = x"
    "test_id (test_at i x) = i" for i x
    by (simp_all add: row_at_def test_at_def)
  from history_walks_previous_tests [of builds_history "build_at 10 (Some True)"
      "run_at 10 (Some True)" "test_at 10 (Some True)"]
  have "history builds_history ?self =
     \<lparr>since = Some (test_at 8 (Some True)), count = 2,
      last_different = Some (test_at 7 (Some False))\<rparr>"
    by (simp add: p r Let_def)
  moreover from history_walks_previous_tests [of builds_history "build_at 6 (Some True)"
      "run_at 6 (Some True)" "test_at 6 (Some True)"] q
  have "history builds_history ?first =
     \<lparr>since = None, count = 0, last_different = None\<rparr>"
    by blast
  ultimately show ?thesis using q by (simp add: p r)
qed

subsection \<open>The metadata of a build\<close>

text \<open>
  C5 (as amended).  \<^verbatim>\<open>Build.metadata\<close> maps a key that no run has to nothing, and
  every other key to the merge of the values the runs give for it, each value taken
  as a whole (a list is one value, equal only to an equal list): the distinct values
  are collected in the order of the runs; one distinct value is the merged value
  itself, several are merged into the list of them sorted by their string
  representation.  The collected values are pairwise different and every value of a
  run equals a collected one.
\<close>

theorem build_metadata_merge:
  "map_of (Build_metadata str build) key =
     (case distinct_values (values_of key (map metadata (test_runs build))) of
        [] \<Rightarrow> None
      | [v] \<Rightarrow> Some v
      | vs \<Rightarrow> Some (JList (sort_key str vs)))
   \<and> sorted_wrt (\<lambda>item v. \<not> py_eq item v)
        (distinct_values (values_of key (map metadata (test_runs build))))
   \<and> list_all (\<lambda>v. py_in v (distinct_values (values_of key (map metadata (test_runs build)))))
        (values_of key (map metadata (test_runs build)))
   \<and> distinct (map fst (Build_metadata str build))"
proof -
  have "sorted_wrt (\<lambda>item v. \<not> py_eq item v)
        (distinct_values (values_of key (map metadata (test_runs build))))"
    unfolding distinct_values_def by (rule fold_add_distinct_sorted_wrt) simp
  moreover have "list_all
        (\<lambda>v. py_in v (distinct_values (values_of key (map metadata (test_runs build)))))
        (values_of key (map metadata (test_runs build)))"
    unfolding distinct_values_def by (rule fold_add_distinct_covers)
  ultimately show ?thesis
    by (simp add: Build_metadata_def map_of_merge_metadata distinct_merge_metadata)
qed

theorem build_metadata_merge_witness:
  "map_of (Build_metadata str_plain build_meta) ''k'' =
     Some (JList [JList [JStr ''a'', JStr ''b''], JStr ''a''])
   \<and> map_of (Build_metadata str_plain build_meta) ''n'' = Some (JInt 1)
   \<and> map_of (Build_metadata str_plain build_meta) ''z'' = None"
  using build_metadata_merge [of str_plain build_meta "''k''"]
    build_metadata_merge [of str_plain build_meta "''n''"]
    build_metadata_merge [of str_plain build_meta "''z''"]
  by (simp add: build_meta_merged)

text \<open>
  The claim as stated expands list values.  For the runs of \<^const>\<open>build_meta\<close> the
  code keeps the list \<^verbatim>\<open>["a", "b"]\<close> as one value beside \<^verbatim>\<open>"a"\<close>, where the claim
  gives the two distinct strings.
\<close>

theorem build_metadata_expansion_counterexample:
  "map_of (Build_metadata str_plain build_meta) ''k'' =
     Some (JList [JList [JStr ''a'', JStr ''b''], JStr ''a''])
   \<and> claimed_metadata str_plain build_meta ''k'' = Some (JList [JStr ''a'', JStr ''b''])"
  by (simp add: build_meta_merged claimed_metadata_def build_meta_values expand_def
      build_meta_distinct str_plain_examples)

text \<open>
  C6.  Merging the single map that \<^verbatim>\<open>Build.metadata\<close> returned gives that map again,
  and so does merging it with itself.
\<close>

theorem merge_metadata_idempotent:
  "merge_metadata str [Build_metadata str build] = Build_metadata str build
   \<and> merge_metadata str [Build_metadata str build, Build_metadata str build] =
       Build_metadata str build"
proof -
  have "distinct (map fst (Build_metadata str build))"
    by (simp add: Build_metadata_def distinct_merge_metadata)
  then show ?thesis
    by (simp add: merge_single merge_twice)
qed

theorem merge_metadata_idempotent_witness:
  "merge_metadata str_plain
     [[(''k'', JList [JList [JStr ''a'', JStr ''b''], JStr ''a'']), (''n'', JInt 1)]] =
     [(''k'', JList [JList [JStr ''a'', JStr ''b''], JStr ''a'']), (''n'', JInt 1)]"
  using merge_metadata_idempotent [of str_plain build_meta]
  by (simp add: build_meta_merged)

subsection \<open>Stored comparison data\<close>

text \<open>
  C8 (as amended).  \<^verbatim>\<open>get_regressions\<close> and \<^verbatim>\<open>get_fixes\<close> return the empty mapping
  for a null field, and otherwise whatever \<^verbatim>\<open>yaml.load\<close> does with the stored text:
  its document, or the error it raises.
\<close>

theorem get_yaml_field_passes_loader:
  "(status_regressions st = None \<longrightarrow> get_regressions yaml_load empty_dict st = Inr empty_dict)
   \<and> (status_fixes st = None \<longrightarrow> get_fixes yaml_load empty_dict st = Inr empty_dict)
   \<and> (\<forall>text. status_regressions st = Some text \<longrightarrow>
          get_regressions yaml_load empty_dict st = yaml_load text)
   \<and> (\<forall>text. status_fixes st = Some text \<longrightarrow> get_fixes yaml_load empty_dict st = yaml_load text)"
  by (simp add: get_regressions_def get_fixes_def get_yaml_field_def)

theorem get_yaml_field_passes_loader_witness:
  "get_regressions yaml_load_example [] status_five = Inr []
   \<and> get_fixes yaml_load_example [] (status_five\<lparr>status_fixes := Some ''{''\<rparr>) = Inl YAMLError"
  using get_yaml_field_passes_loader
          [of status_five yaml_load_example "[]"]
        get_yaml_field_passes_loader
          [of "status_five\<lparr>status_fixes := Some ''{''\<rparr>" yaml_load_example "[]"]
  by (simp add: status_five_def yaml_load_example_def)

text \<open>
  There is no handler around \<^verbatim>\<open>yaml.load\<close>: a stored text that does not parse makes
  \<^verbatim>\<open>get_regressions\<close> raise, where the claim reads it as no comparison data.
\<close>

theorem get_regressions_malformed_counterexample:
  "get_regressions yaml_load_example [] (status_five\<lparr>status_regressions := Some ''{''\<rparr>) =
     Inl YAMLError
   \<and> claimed_read yaml_load_example []
       (status_regressions (status_five\<lparr>status_regressions := Some ''{''\<rparr>)) = Inr []"
  by (simp add: get_regressions_def get_yaml_field_def claimed_read_def status_five_def
      yaml_load_example_def)

end
